theory Spec2Isabelle
  imports Complex_Main
begin

section \<open>Strings, values and exceptions\<close>

text \<open>
  A Python \<open>str\<close> is modelled as a \<open>string\<close> whose characters are the code points
  below 256. On this range \<open>str.lower\<close> works character by character and both
  \<open>str.strip\<close> and the regular expression class \<open>\s\<close> use the same whitespace test.
\<close>

definition isspace :: "char \<Rightarrow> bool" where
  "isspace c =
     (let n = (of_char c :: nat)
      in (9 \<le> n \<and> n \<le> 13) \<or> (28 \<le> n \<and> n \<le> 32) \<or> n = 133 \<or> n = 160)"

definition lower_char :: "char \<Rightarrow> char" where
  "lower_char c =
     (let n = (of_char c :: nat)
      in if (65 \<le> n \<and> n \<le> 90) \<or> (192 \<le> n \<and> n \<le> 222 \<and> n \<noteq> 215)
         then char_of (n + 32) else c)"

definition lower :: "string \<Rightarrow> string" where
  "lower s = map lower_char s"

definition strip :: "string \<Rightarrow> string" where
  "strip s = rev (dropWhile isspace (rev (dropWhile isspace s)))"

text \<open>
  A value stored in the \<open>settings\<close> dictionary or received from the form. A Python
  \<open>float\<close> is a real number here: rounding, infinities and NaN are not represented. An
  instance of \<open>Exception\<close> is represented by the text that \<open>str(e)\<close> yields.
\<close>

datatype pyval = PyNone | PyInt int | PyFloat real | PyStr string

datatype exn = Exn string

section \<open>The log sink\<close>

text \<open>
  \<open>log_message\<close> prefixes the message with the wall-clock timestamp, prints it and hands
  it to the window. Both sinks are one event here, and a log line is identified by the
  format string that produced it together with the formatted arguments:
  \<^item> \<open>Connecting\<close>: "Connecting to SMTP server..."
  \<^item> \<open>LoggedIn\<close>: "Logged in successfully!"
  \<^item> \<open>NoRecipients\<close>: "No recipient emails found. Aborting send."
  \<^item> \<open>Sent r i total\<close>: "Sent to r (i/total)"
  \<^item> \<open>Failed r e\<close>: "Failed to send to r: e"
  \<^item> \<open>Waiting d\<close>: "Waiting d s before next email..."
  \<^item> \<open>AllProcessed\<close>: "All emails processed."
  \<^item> \<open>RunError e\<close>: "Error in send_bulk_emails: e"
  \<^item> \<open>Warning e\<close>: "Warning: 'e' doesn't look like a valid email address."
  \<^item> \<open>Loaded n\<close>: "Loaded n receiver emails from textarea."
  \<^item> \<open>InBackground\<close>: "Emails are being sent in background!"
\<close>

datatype log_line =
    Connecting
  | LoggedIn
  | NoRecipients
  | Sent string nat nat
  | Failed string exn
  | Waiting real
  | AllProcessed
  | RunError exn
  | Warning string
  | Loaded nat
  | InBackground

section \<open>Recipient parser\<close>

text \<open>
  \<open>re.split(r"[,\n;]+", text)\<close>: the pieces between maximal runs of delimiters. The flag
  tells whether the preceding character already belonged to a run.
\<close>

definition is_delim :: "char \<Rightarrow> bool" where
  "is_delim c = (c = CHR '','' \<or> c = CHR 0x0A \<or> c = CHR '';'')"

fun re_split_from :: "bool \<Rightarrow> string \<Rightarrow> string list" where
  "re_split_from d [] = [[]]"
| "re_split_from d (c # cs) =
     (if is_delim c then (if d then re_split_from True cs else [] # re_split_from True cs)
      else (case re_split_from False cs of
              [] \<Rightarrow> [[c]]
            | p # ps \<Rightarrow> (c # p) # ps))"

definition re_split :: "string \<Rightarrow> string list" where
  "re_split text = re_split_from False text"

text \<open>
  \<open>EMAIL_RE.match(e)\<close> for \<open>^[^@\s]+@[^@\s]+\.[^@\s]+$\<close>: a non-empty local part up to
  the first \<open>@\<close>, then a domain without \<open>@\<close> that has a dot which is neither its first
  nor its last character; no whitespace anywhere.
\<close>

definition plain_char :: "char \<Rightarrow> bool" where
  "plain_char c = (c \<noteq> CHR ''@'' \<and> \<not> isspace c)"

definition email_match :: "string \<Rightarrow> bool" where
  "email_match e =
     (let local = takeWhile plain_char e; rest = dropWhile plain_char e
      in local \<noteq> [] \<and>
         (case rest of
            [] \<Rightarrow> False
          | c # domain \<Rightarrow> c = CHR ''@'' \<and> list_all plain_char domain \<and>
                      CHR ''.'' \<in> set (butlast (tl domain))))"

text \<open>
  The loop of \<open>parse_receivers\<close> over the pieces, with the set \<open>seen\<close>, the list \<open>out\<close>
  and the log lines written so far.
\<close>

fun parse_loop :: "string list \<Rightarrow> string set \<Rightarrow> string list \<Rightarrow> log_line list
    \<Rightarrow> string list \<times> log_line list" where
  "parse_loop [] seen out lg = (out, lg)"
| "parse_loop (p # ps) seen out lg =
     (let e = strip p
      in if e = [] then parse_loop ps seen out lg
         else if email_match e then
           (if lower e \<notin> seen
            then parse_loop ps (insert (lower e) seen) (out @ [e]) lg
            else parse_loop ps seen out lg)
         else
           (if lower e \<notin> seen
            then parse_loop ps (insert (lower e) seen) (out @ [e]) (lg @ [Warning e])
            else parse_loop ps seen out lg))"

text \<open>
  \<open>parse_receivers\<close> returns the list \<open>out\<close>; the second component holds the messages it
  passed to \<open>log_message\<close>, in order.
\<close>

definition parse_receivers :: "string \<Rightarrow> string list \<times> log_line list" where
  "parse_receivers text =
     (if text = [] then ([], []) else parse_loop (re_split text) {} [] [])"

section \<open>Settings and the environment of a run\<close>

text \<open>
  The global \<open>settings\<close> dictionary: its keys are fixed, so it is a record. A run of the
  worker reads it unchanged from start to end.
\<close>

record settings =
  smtp_server :: pyval
  smtp_port :: pyval
  sender_email :: pyval
  password :: pyval
  subject :: pyval
  body :: pyval
  min_delay :: pyval
  max_delay :: pyval
  receiver_list :: "string list"

definition default_settings :: settings where
  "default_settings =
     \<lparr> smtp_server = PyStr ''smtp.gmail.com'', smtp_port = PyInt 587,
       sender_email = PyStr [], password = PyStr [],
       subject = PyStr ''Test Email from AirMailX Sender'',
       body = PyStr ''<html>Paste your HTML email template here</html>'',
       min_delay = PyInt 2, max_delay = PyInt 5, receiver_list = [] \<rparr>"

text \<open>
  Everything a run receives from outside the program: how the built-ins \<open>int\<close> and
  \<open>float\<close> read a string (\<open>None\<close> is \<open>ValueError\<close>), whether each call of the SMTP
  library raises (\<open>None\<close> is a normal return), whether building the message of the
  \<open>i\<close>-th recipient raises, and the value of \<open>random.random()\<close> at the \<open>i\<close>-th draw.
  The calls inside the loop are indexed by the 1-based position of the recipient.
\<close>

record env =
  int_str :: "string \<Rightarrow> int option"
  float_str :: "string \<Rightarrow> real option"
  connect_res :: "exn option"
  ehlo_res :: "exn option"
  starttls_res :: "exn option"
  login_res :: "exn option"
  compose_res :: "nat \<Rightarrow> exn option"
  sendmail_res :: "nat \<Rightarrow> exn option"
  quit_res :: "exn option"
  rand :: "nat \<Rightarrow> real"

definition py_int :: "env \<Rightarrow> pyval \<Rightarrow> exn + int" where
  "py_int ev v =
     (case v of
        PyNone \<Rightarrow> Inl (Exn ''int() argument must be a string or a number'')
      | PyInt n \<Rightarrow> Inr n
      | PyFloat r \<Rightarrow> Inr (if r < 0 then \<lceil>r\<rceil> else \<lfloor>r\<rfloor>)
      | PyStr s \<Rightarrow> (case int_str ev s of
                     None \<Rightarrow> Inl (Exn ''invalid literal for int()'')
                   | Some n \<Rightarrow> Inr n))"

definition py_float :: "env \<Rightarrow> pyval \<Rightarrow> exn + real" where
  "py_float ev v =
     (case v of
        PyNone \<Rightarrow> Inl (Exn ''float() argument must be a string or a number'')
      | PyInt n \<Rightarrow> Inr (of_int n)
      | PyFloat r \<Rightarrow> Inr r
      | PyStr s \<Rightarrow> (case float_str ev s of
                     None \<Rightarrow> Inl (Exn ''could not convert string to float'')
                   | Some r \<Rightarrow> Inr r))"

text \<open>
  What a run does, in order: a call of \<open>log_message\<close>, a call into the SMTP library
  (recorded when it is made, whether or not it raises), or a completed \<open>time.sleep\<close>.
\<close>

datatype event =
    Log log_line
  | SmtpConnect pyval int
  | Ehlo
  | StartTls
  | Login pyval pyval
  | Sendmail pyval string
  | Quit
  | Sleep real

section \<open>Bulk send worker\<close>

text \<open>\<open>random.uniform(a, b)\<close> is \<open>a + (b - a) * random()\<close>.\<close>

definition uniform :: "real \<Rightarrow> real \<Rightarrow> real \<Rightarrow> real" where
  "uniform a b u = a + (b - a) * u"

text \<open>
  The conversions and the clamping inside the \<open>try\<close> of the delay block: the bounds the
  delay is drawn from, or the exception of a conversion.
\<close>

definition delay_bounds :: "env \<Rightarrow> settings \<Rightarrow> exn + (real \<times> real)" where
  "delay_bounds ev st =
     (case py_float ev (min_delay st) of
        Inl e \<Rightarrow> Inl e
      | Inr mind \<Rightarrow>
          (case py_float ev (max_delay st) of
             Inl e \<Rightarrow> Inl e
           | Inr maxd \<Rightarrow> Inr (mind, if maxd < mind then mind else maxd)))"

definition draw_delay :: "env \<Rightarrow> settings \<Rightarrow> nat \<Rightarrow> real" where
  "draw_delay ev st i =
     (case delay_bounds ev st of
        Inr (mind, maxd) \<Rightarrow> uniform mind maxd (rand ev i)
      | Inl _ \<Rightarrow> uniform 2 5 (rand ev i))"

text \<open>
  The statements before the loop, up to the log line after \<open>server.login\<close>. A statement
  sequence yields the events it produced and the exception it raised, if any. An
  exception of \<open>starttls\<close> or of the \<open>ehlo\<close> after it is swallowed.
\<close>

definition smtp_open :: "env \<Rightarrow> settings \<Rightarrow> event list \<times> exn option" where
  "smtp_open ev st =
     (case py_int ev (smtp_port st) of
        Inl e \<Rightarrow> ([Log Connecting], Some e)
      | Inr port \<Rightarrow>
          (let t1 = [Log Connecting, SmtpConnect (smtp_server st) port]
           in case connect_res ev of
                Some e \<Rightarrow> (t1, Some e)
              | None \<Rightarrow>
                  (case ehlo_res ev of
                     Some e \<Rightarrow> (t1 @ [Ehlo], Some e)
                   | None \<Rightarrow>
                       (let t2 = t1 @ [Ehlo, StartTls] @
                                 (case starttls_res ev of Some _ \<Rightarrow> [] | None \<Rightarrow> [Ehlo]) @
                                 [Login (sender_email st) (password st)]
                        in case login_res ev of
                             Some e \<Rightarrow> (t2, Some e)
                           | None \<Rightarrow> (t2 @ [Log LoggedIn], None)))))"

text \<open>
  One iteration of the \<open>for\<close> loop up to the delay: the inner \<open>try\<close> logs either the
  success or the failure, then the delay is drawn and announced.
\<close>

definition send_one :: "env \<Rightarrow> settings \<Rightarrow> nat \<Rightarrow> nat \<Rightarrow> string \<Rightarrow> event list" where
  "send_one ev st tot i r =
     (let recipient = strip r
      in (case compose_res ev i of
            Some e \<Rightarrow> [Log (Failed recipient e)]
          | None \<Rightarrow>
              Sendmail (sender_email st) recipient #
              (case sendmail_res ev i of
                 Some e \<Rightarrow> [Log (Failed recipient e)]
               | None \<Rightarrow> [Log (Sent recipient i tot)])) @
         [Log (Waiting (draw_delay ev st i))])"

text \<open>
  \<open>time.sleep(d)\<close> turns the duration into a number of nanoseconds held in a signed
  64-bit integer. It raises \<open>OverflowError\<close> when the number does not fit, which is from
  \<open>sleep_max\<close> seconds on, and \<open>ValueError\<close> when the duration is negative. The wording
  of the first error differs between versions of the interpreter.
\<close>

definition sleep_max :: real where
  "sleep_max = 2 ^ 63 / 10 ^ 9"

definition time_sleep :: "real \<Rightarrow> exn option" where
  "time_sleep d =
     (if d < - sleep_max \<or> sleep_max \<le> d
      then Some (Exn ''timestamp too large to convert to C _PyTime_t'')
      else if d < 0 then Some (Exn ''sleep length must be non-negative'')
      else None)"

text \<open>
  The loop over \<open>enumerate(receiver_list, start=1)\<close>. An exception of \<open>time.sleep\<close>
  leaves the loop.
\<close>

fun send_loop :: "env \<Rightarrow> settings \<Rightarrow> nat \<Rightarrow> nat \<Rightarrow> string list \<Rightarrow> event list \<times> exn option"
  where
  "send_loop ev st tot i [] = ([], None)"
| "send_loop ev st tot i (r # rs) =
     (case time_sleep (draw_delay ev st i) of
        Some e \<Rightarrow> (send_one ev st tot i r, Some e)
      | None \<Rightarrow>
          (case send_loop ev st tot (Suc i) rs of
             (t, x) \<Rightarrow> (send_one ev st tot i r @ Sleep (draw_delay ev st i) # t, x)))"

text \<open>The body of the outer \<open>try\<close>. An exception of \<open>server.quit\<close> is swallowed.\<close>

definition send_bulk_body :: "env \<Rightarrow> settings \<Rightarrow> event list \<times> exn option" where
  "send_bulk_body ev st =
     (case smtp_open ev st of
        (t, Some e) \<Rightarrow> (t, Some e)
      | (t, None) \<Rightarrow>
          (let n = length (receiver_list st)
           in if n = 0 then (t @ [Log NoRecipients], None)
              else (case send_loop ev st n 1 (receiver_list st) of
                      (t', Some e) \<Rightarrow> (t @ t', Some e)
                    | (t', None) \<Rightarrow>
                        (case quit_res ev of
                           Some _ \<Rightarrow> (t @ t' @ [Quit, Log AllProcessed], None)
                         | None \<Rightarrow> (t @ t' @ [Quit, Log AllProcessed], None)))))"

text \<open>
  \<open>send_bulk_emails\<close>: the outer \<open>except Exception\<close> turns an exception of the body into
  one log line. The second component is the exception that leaves the function.
\<close>

definition send_bulk_emails :: "env \<Rightarrow> settings \<Rightarrow> event list \<times> exn option" where
  "send_bulk_emails ev st =
     (case send_bulk_body ev st of
        (t, Some e) \<Rightarrow> (t @ [Log (RunError e)], None)
      | (t, None) \<Rightarrow> (t, None))"

section \<open>The entry point called from the form\<close>

text \<open>
  \<open>API.send_emails\<close>: copies the allowed keys that are present, parses the receivers and
  stores them. It returns the settings the worker thread is started on and the lines it
  logs itself. A value of \<open>receiver_emails\<close> that is not a string is either falsy, which
  \<open>parse_receivers\<close> answers with the empty list, or makes \<open>re.split\<close> raise.
\<close>

definition update_allowed :: "settings \<Rightarrow> (string \<rightharpoonup> pyval) \<Rightarrow> settings" where
  "update_allowed st ns =
     \<lparr> smtp_server = (case ns ''smtp_server'' of Some v \<Rightarrow> v | None \<Rightarrow> smtp_server st),
       smtp_port = (case ns ''smtp_port'' of Some v \<Rightarrow> v | None \<Rightarrow> smtp_port st),
       sender_email = (case ns ''sender_email'' of Some v \<Rightarrow> v | None \<Rightarrow> sender_email st),
       password = (case ns ''password'' of Some v \<Rightarrow> v | None \<Rightarrow> password st),
       subject = (case ns ''subject'' of Some v \<Rightarrow> v | None \<Rightarrow> subject st),
       body = (case ns ''body'' of Some v \<Rightarrow> v | None \<Rightarrow> body st),
       min_delay = (case ns ''min_delay'' of Some v \<Rightarrow> v | None \<Rightarrow> min_delay st),
       max_delay = (case ns ''max_delay'' of Some v \<Rightarrow> v | None \<Rightarrow> max_delay st),
       receiver_list = receiver_list st \<rparr>"

definition parse_value :: "pyval \<Rightarrow> exn + (string list \<times> log_line list)" where
  "parse_value v =
     (case v of
        PyStr text \<Rightarrow> Inr (parse_receivers text)
      | PyNone \<Rightarrow> Inr ([], [])
      | PyInt n \<Rightarrow> if n = 0 then Inr ([], [])
                   else Inl (Exn ''expected string or bytes-like object'')
      | PyFloat r \<Rightarrow> if r = 0 then Inr ([], [])
                     else Inl (Exn ''expected string or bytes-like object''))"

definition send_emails :: "settings \<Rightarrow> (string \<rightharpoonup> pyval) \<Rightarrow> exn + (settings \<times> log_line list)"
  where
  "send_emails st ns =
     (let st1 = update_allowed st ns;
          receivers_text = (case ns ''receiver_emails'' of Some v \<Rightarrow> v | None \<Rightarrow> PyStr [])
      in case parse_value receivers_text of
           Inl e \<Rightarrow> Inl e
         | Inr (emails, lg) \<Rightarrow>
             Inr (st1\<lparr>receiver_list := emails\<rparr>,
                  lg @ [Loaded (length emails), InBackground]))"

section \<open>Observations on a run\<close>

text \<open>The lines logged, the durations slept, the recipients of the submissions made, the
  errors logged by the outer handler, and the per-recipient reports with the completion
  line.\<close>

fun logs :: "event list \<Rightarrow> log_line list" where
  "logs [] = []"
| "logs (Log l # t) = l # logs t"
| "logs (_ # t) = logs t"

fun sleeps :: "event list \<Rightarrow> real list" where
  "sleeps [] = []"
| "sleeps (Sleep d # t) = d # sleeps t"
| "sleeps (_ # t) = sleeps t"

fun submissions :: "event list \<Rightarrow> string list" where
  "submissions [] = []"
| "submissions (Sendmail _ r # t) = r # submissions t"
| "submissions (_ # t) = submissions t"

fun fatal_lines :: "event list \<Rightarrow> exn list" where
  "fatal_lines [] = []"
| "fatal_lines (Log (RunError e) # t) = e # fatal_lines t"
| "fatal_lines (_ # t) = fatal_lines t"

fun reports :: "event list \<Rightarrow> log_line list" where
  "reports [] = []"
| "reports (Log (Sent r i n) # t) = Sent r i n # reports t"
| "reports (Log (Failed r e) # t) = Failed r e # reports t"
| "reports (Log AllProcessed # t) = AllProcessed # reports t"
| "reports (_ # t) = reports t"

text \<open>The log lines a run can end with.\<close>

fun terminal :: "event \<Rightarrow> bool" where
  "terminal (Log AllProcessed) = True"
| "terminal (Log NoRecipients) = True"
| "terminal (Log (RunError _)) = True"
| "terminal _ = False"

text \<open>The report expected for the recipient at position \<open>i\<close> of \<open>n\<close>.\<close>

definition outcome :: "env \<Rightarrow> nat \<Rightarrow> nat \<Rightarrow> string \<Rightarrow> log_line" where
  "outcome ev n i r =
     (case compose_res ev i of
        Some e \<Rightarrow> Failed (strip r) e
      | None \<Rightarrow> (case sendmail_res ev i of
                   Some e \<Rightarrow> Failed (strip r) e
                 | None \<Rightarrow> Sent (strip r) i n))"

text \<open>An environment in which no call raises; every random draw is \<open>1/2\<close>.\<close>

definition env_ok :: env where
  "env_ok =
     \<lparr> int_str = (\<lambda>s. if s = ''587'' then Some 587 else None),
       float_str = (\<lambda>s. if s = ''2'' then Some 2 else if s = ''5'' then Some 5 else None),
       connect_res = None, ehlo_res = None, starttls_res = None, login_res = None,
       compose_res = (\<lambda>i. None), sendmail_res = (\<lambda>i. None), quit_res = None,
       rand = (\<lambda>i. 1 / 2) \<rparr>"

section \<open>First occurrences\<close>

text \<open>
  The cleaned fragments of a text in input order, and the fragments that have no earlier
  fragment equal to them when case is ignored, in input order.
\<close>

definition fragments :: "string \<Rightarrow> string list" where
  "fragments text = filter (\<lambda>e. e \<noteq> []) (map strip (re_split text))"

definition first_occurrences :: "string list \<Rightarrow> string list" where
  "first_occurrences fs =
     map (\<lambda>i. fs ! i)
       (filter (\<lambda>i. \<forall>j<i. lower (fs ! j) \<noteq> lower (fs ! i)) [0..<length fs])"

section \<open>Properties of the parser\<close>

lemma first_occurrences_snoc:
  "first_occurrences (fs @ [f]) =
     first_occurrences fs @ (if lower f \<in> lower ` set fs then [] else [f])"
proof -
  let ?keep = "\<lambda>i. \<forall>j<i. lower (fs ! j) \<noteq> lower (fs ! i)"
  have a: "filter (\<lambda>i. \<forall>j<i. lower ((fs @ [f]) ! j) \<noteq> lower ((fs @ [f]) ! i)) [0..<length fs]
         = filter ?keep [0..<length fs]"
    by (rule filter_cong) (auto simp: nth_append)
  have b: "map (\<lambda>i. (fs @ [f]) ! i) (filter ?keep [0..<length fs])
         = map (\<lambda>i. fs ! i) (filter ?keep [0..<length fs])"
    by (rule map_cong) (auto simp: nth_append)
  have c: "(\<forall>j<length fs. lower ((fs @ [f]) ! j) \<noteq> lower f) \<longleftrightarrow> lower f \<notin> lower ` set fs"
  proof
    assume h: "\<forall>j<length fs. lower ((fs @ [f]) ! j) \<noteq> lower f"
    show "lower f \<notin> lower ` set fs"
    proof
      assume "lower f \<in> lower ` set fs"
      then obtain x where x: "x \<in> set fs" "lower f = lower x" by auto
      then obtain j where "j < length fs" "fs ! j = x" by (auto simp: in_set_conv_nth)
      with h x show False by (auto simp: nth_append)
    qed
  next
    assume h: "lower f \<notin> lower ` set fs"
    show "\<forall>j<length fs. lower ((fs @ [f]) ! j) \<noteq> lower f"
    proof (intro allI impI)
      fix j assume j: "j < length fs"
      then have "fs ! j \<in> set fs" by simp
      with h have "lower (fs ! j) \<noteq> lower f" by (metis imageI)
      with j show "lower ((fs @ [f]) ! j) \<noteq> lower f" by (simp add: nth_append)
    qed
  qed
  show ?thesis
    unfolding first_occurrences_def using a b c by simp
qed

lemma first_occurrences_Nil: "first_occurrences [] = []"
  by (simp add: first_occurrences_def)

lemma first_occurrences_keys: "lower ` set (first_occurrences fs) = lower ` set fs"
  by (induction fs rule: rev_induct) (auto simp: first_occurrences_Nil first_occurrences_snoc)

lemma first_occurrences_distinct: "distinct (map lower (first_occurrences fs))"
proof (induction fs rule: rev_induct)
  case Nil
  show ?case by (simp add: first_occurrences_Nil)
next
  case (snoc f fs)
  have "lower f \<notin> lower ` set fs \<Longrightarrow> lower f \<notin> lower ` set (first_occurrences fs)"
    by (simp add: first_occurrences_keys)
  with snoc show ?case
    by (simp add: first_occurrences_snoc)
qed

lemma parse_loop_out:
  "seen = lower ` set done \<Longrightarrow> out = first_occurrences done \<Longrightarrow>
   fst (parse_loop ps seen out lg) =
     first_occurrences (done @ filter (\<lambda>e. e \<noteq> []) (map strip ps))"
proof (induction ps arbitrary: seen out lg "done")
  case Nil
  then show ?case by simp
next
  case (Cons p ps)
  show ?case
  proof (cases "strip p = []")
    case True
    with Cons show ?thesis by simp
  next
    case False
    let ?e = "strip p"
    show ?thesis
    proof (cases "lower ?e \<in> seen")
      case True
      then have "first_occurrences (done @ [?e]) = out"
        using Cons.prems by (simp add: first_occurrences_snoc)
      moreover have "seen = lower ` set (done @ [?e])"
        using True Cons.prems by auto
      ultimately have "fst (parse_loop ps seen out lg) =
          first_occurrences ((done @ [?e]) @ filter (\<lambda>e. e \<noteq> []) (map strip ps))"
        using Cons.IH [of seen "done @ [?e]" out lg] by simp
      with True False show ?thesis by (simp add: Let_def)
    next
      case notin: False
      then have o: "first_occurrences (done @ [?e]) = out @ [?e]"
        using Cons.prems by (simp add: first_occurrences_snoc)
      have s: "insert (lower ?e) seen = lower ` set (done @ [?e])"
        using Cons.prems by auto
      have "fst (parse_loop ps (insert (lower ?e) seen) (out @ [?e]) lg') =
          first_occurrences ((done @ [?e]) @ filter (\<lambda>e. e \<noteq> []) (map strip ps))" for lg'
        using Cons.IH [of "insert (lower ?e) seen" "done @ [?e]" "out @ [?e]" lg'] o s by simp
      with notin False show ?thesis by (simp add: Let_def)
    qed
  qed
qed

lemma parse_receivers_out: "fst (parse_receivers text) = first_occurrences (fragments text)"
proof (cases "text = []")
  case True
  then show ?thesis
    by (simp add: parse_receivers_def fragments_def re_split_def strip_def first_occurrences_Nil)
next
  case False
  then show ?thesis
    using parse_loop_out [of "{}" "[]" "[]" "re_split text" "[]"]
    by (simp add: parse_receivers_def fragments_def first_occurrences_Nil)
qed

lemma parse_loop_log:
  "lg = map Warning (filter (\<lambda>e. \<not> email_match e) out) \<Longrightarrow>
   snd (parse_loop ps seen out lg) =
     map Warning (filter (\<lambda>e. \<not> email_match e) (fst (parse_loop ps seen out lg)))"
proof (induction ps arbitrary: seen out lg)
  case Nil
  then show ?case by simp
next
  case (Cons p ps)
  let ?e = "strip p"
  have keep: "snd (parse_loop ps seen out lg) =
      map Warning (filter (\<lambda>e. \<not> email_match e) (fst (parse_loop ps seen out lg)))"
    using Cons.IH [of lg out seen] Cons.prems by simp
  have valid: "email_match ?e \<Longrightarrow>
      snd (parse_loop ps (insert (lower ?e) seen) (out @ [?e]) lg) =
      map Warning (filter (\<lambda>e. \<not> email_match e)
        (fst (parse_loop ps (insert (lower ?e) seen) (out @ [?e]) lg)))"
    using Cons.IH [of lg "out @ [?e]" "insert (lower ?e) seen"] Cons.prems by simp
  have suspect: "\<not> email_match ?e \<Longrightarrow>
      snd (parse_loop ps (insert (lower ?e) seen) (out @ [?e]) (lg @ [Warning ?e])) =
      map Warning (filter (\<lambda>e. \<not> email_match e)
        (fst (parse_loop ps (insert (lower ?e) seen) (out @ [?e]) (lg @ [Warning ?e]))))"
    using Cons.IH [of "lg @ [Warning ?e]" "out @ [?e]" "insert (lower ?e) seen"] Cons.prems
    by simp
  show ?case
    using keep valid suspect by (simp add: Let_def)
qed

lemma parse_receivers_log:
  "snd (parse_receivers text) =
     map Warning (filter (\<lambda>e. \<not> email_match e) (fst (parse_receivers text)))"
  using parse_loop_log [of "[]" "[]" "re_split text" "{}"]
  by (simp add: parse_receivers_def)


text \<open>
  Claim C5. For every input text, no two entries of the list returned by
  \<open>parse_receivers\<close> are equal when case is ignored, and the list consists of exactly
  the cleaned fragments of the input that no earlier fragment equals when case is ignored,
  in the order of the input: the entries stand in the order of their first occurrence.
\<close>

theorem parse_receivers_dedup_ordered:
  "distinct (map lower (fst (parse_receivers text))) \<and>
   fst (parse_receivers text) = first_occurrences (fragments text)"
  by (simp add: parse_receivers_out first_occurrences_distinct)

text \<open>
  The theorem at a text with an empty piece, surrounding blanks, a repetition in another
  case and an entry that is not an address.
\<close>

theorem parse_receivers_dedup_ordered_witness:
  "distinct (map lower [''Bob@x.org'', ''alice@x.org'', ''al'']) \<and>
   [''Bob@x.org'', ''alice@x.org'', ''al''] =
     first_occurrences [''Bob@x.org'', ''alice@x.org'', ''BOB@X.ORG'', ''al'']"
proof -
  have f: "fragments ''Bob@x.org;;alice@x.org , BOB@X.ORG,al'' =
      [''Bob@x.org'', ''alice@x.org'', ''BOB@X.ORG'', ''al'']"
    by code_simp
  have o: "fst (parse_receivers ''Bob@x.org;;alice@x.org , BOB@X.ORG,al'') =
      [''Bob@x.org'', ''alice@x.org'', ''al'']"
    by code_simp
  from parse_receivers_dedup_ordered [of "''Bob@x.org;;alice@x.org , BOB@X.ORG,al''"]
  show ?thesis unfolding o f .
qed

text \<open>
  Claim C7, as stated, fails: on the text \<open>a@b.com, a@B.com; c@d.com\<close>, a newline,
  \<open>bad-entry\<close> the third entry of the returned list is the bare string \<open>bad-entry\<close>. The
  returned entries carry no flag; what marks the entry is a line written to the log sink.
\<close>

theorem parse_receivers_unflagged_counterexample:
  "fst (parse_receivers (''a@b.com, a@B.com; c@d.com'' @ [CHR 0x0A] @ ''bad-entry'')) ! 2 =
     ''bad-entry'' \<and>
   snd (parse_receivers (''a@b.com, a@B.com; c@d.com'' @ [CHR 0x0A] @ ''bad-entry'')) =
     [Warning ''bad-entry'']"
  by code_simp

text \<open>
  Claim C7, amended. On that text \<open>parse_receivers\<close> returns the plain strings
  \<open>a@b.com\<close>, \<open>c@d.com\<close>, \<open>bad-entry\<close> in this order, so \<open>bad-entry\<close> is kept. It logs
  exactly one warning, which names \<open>bad-entry\<close>, and \<open>bad-entry\<close> is the only returned
  entry that fails the shape test.
\<close>

theorem parse_receivers_example:
  "parse_receivers (''a@b.com, a@B.com; c@d.com'' @ [CHR 0x0A] @ ''bad-entry'') =
     ([''a@b.com'', ''c@d.com'', ''bad-entry''], [Warning ''bad-entry'']) \<and>
   filter (\<lambda>e. \<not> email_match e)
     (fst (parse_receivers (''a@b.com, a@B.com; c@d.com'' @ [CHR 0x0A] @ ''bad-entry''))) =
     [''bad-entry'']"
  by code_simp

text \<open>
  Claim C8, as stated, fails: on the text \<open>bad-entry\<close> the function writes a line to the
  log sink, which is an effect beyond its result.
\<close>

theorem parse_receivers_logs_counterexample:
  "snd (parse_receivers ''bad-entry'') = [Warning ''bad-entry'']"
  by code_simp

text \<open>
  Claim C8, amended. The result of \<open>parse_receivers\<close> is a function of the text alone, it
  makes no call into the SMTP library, and the only effect is on the log sink: one warning
  for each returned entry that fails the shape test, in the order of the result, and
  nothing else. On a text whose returned entries all pass the test nothing is logged.
\<close>

theorem parse_receivers_effects:
  "snd (parse_receivers text) =
     map Warning (filter (\<lambda>e. \<not> email_match e) (fst (parse_receivers text)))"
  by (rule parse_receivers_log)

section \<open>Properties of the worker\<close>

lemma logs_append: "logs (a @ b) = logs a @ logs b"
  by (induction a rule: logs.induct) simp_all

lemma sleeps_append: "sleeps (a @ b) = sleeps a @ sleeps b"
  by (induction a rule: sleeps.induct) simp_all

lemma submissions_append: "submissions (a @ b) = submissions a @ submissions b"
  by (induction a rule: submissions.induct) simp_all

lemma fatal_lines_append: "fatal_lines (a @ b) = fatal_lines a @ fatal_lines b"
  by (induction a rule: fatal_lines.induct) simp_all

lemma reports_append: "reports (a @ b) = reports a @ reports b"
  by (induction a rule: reports.induct) simp_all

lemmas observe_append = sleeps_append submissions_append fatal_lines_append reports_append

lemma smtp_open_observe:
  "sleeps (fst (smtp_open ev st)) = []"
  "submissions (fst (smtp_open ev st)) = []"
  "fatal_lines (fst (smtp_open ev st)) = []"
  "reports (fst (smtp_open ev st)) = []"
  by (simp_all add: smtp_open_def Let_def observe_append split: sum.splits option.splits)

lemma send_one_observe:
  "sleeps (send_one ev st tot i r) = []"
  "fatal_lines (send_one ev st tot i r) = []"
  "reports (send_one ev st tot i r) = [outcome ev tot i r]"
  "submissions (send_one ev st tot i r) = (if compose_res ev i = None then [strip r] else [])"
  by (simp_all add: send_one_def outcome_def Let_def observe_append split: option.splits)






lemma send_loop_fst:
  "fst (send_loop ev st tot i (r # rs)) =
     (if time_sleep (draw_delay ev st i) = None
      then send_one ev st tot i r @ Sleep (draw_delay ev st i) #
           fst (send_loop ev st tot (Suc i) rs)
      else send_one ev st tot i r)"
  by (simp add: case_prod_unfold split: option.splits)


lemma fatal_lines_loop: "fatal_lines (fst (send_loop ev st tot i rs)) = []"
proof (induction rs arbitrary: i)
  case Nil
  show ?case by simp
next
  case (Cons r rs)
  show ?case
    unfolding send_loop_fst by (simp add: observe_append send_one_observe Cons.IH)
qed

lemma sleeps_loop:
  "set (sleeps (fst (send_loop ev st tot i rs))) \<subseteq> range (draw_delay ev st)"
proof (induction rs arbitrary: i)
  case Nil
  show ?case by simp
next
  case (Cons r rs)
  show ?case
    unfolding send_loop_fst using Cons.IH [of "Suc i"]
    by (simp add: observe_append send_one_observe)
qed


lemma delay_bounds_Inr:
  "py_float ev (min_delay st) = Inr mind \<Longrightarrow> py_float ev (max_delay st) = Inr maxd \<Longrightarrow>
   delay_bounds ev st = Inr (mind, max mind maxd)"
  by (simp add: delay_bounds_def max_def)




lemma fatal_lines_body: "fatal_lines (fst (send_bulk_body ev st)) = []"
proof -
  obtain t x where o: "smtp_open ev st = (t, x)"
    by (cases "smtp_open ev st")
  obtain t' x' where l:
    "send_loop ev st (length (receiver_list st)) (Suc 0) (receiver_list st) = (t', x')"
    by (cases "send_loop ev st (length (receiver_list st)) (Suc 0) (receiver_list st)")
  have t: "fatal_lines t = []"
    using smtp_open_observe(3) [of ev st] o by simp
  have t': "fatal_lines t' = []"
    using fatal_lines_loop [of ev st "length (receiver_list st)" "Suc 0" "receiver_list st"] l by simp
  show ?thesis
    by (simp add: send_bulk_body_def o l Let_def observe_append t t' split: option.splits)
qed

lemma sleeps_body:
  "set (sleeps (fst (send_bulk_body ev st))) \<subseteq> range (draw_delay ev st)"
proof -
  obtain t x where o: "smtp_open ev st = (t, x)"
    by (cases "smtp_open ev st")
  obtain t' x' where l:
    "send_loop ev st (length (receiver_list st)) (Suc 0) (receiver_list st) = (t', x')"
    by (cases "send_loop ev st (length (receiver_list st)) (Suc 0) (receiver_list st)")
  have t: "sleeps t = []"
    using smtp_open_observe(1) [of ev st] o by simp
  have t': "set (sleeps t') \<subseteq> range (draw_delay ev st)"
    using sleeps_loop [of ev st "length (receiver_list st)" "Suc 0" "receiver_list st"] l by simp
  show ?thesis
    using t' by (simp add: send_bulk_body_def o l Let_def observe_append t split: option.splits)
qed

lemma run_cases:
  "send_bulk_emails ev st =
     (case snd (send_bulk_body ev st) of
        Some e \<Rightarrow> (fst (send_bulk_body ev st) @ [Log (RunError e)], None)
      | None \<Rightarrow> (fst (send_bulk_body ev st), None))"
  by (cases "send_bulk_body ev st") (simp add: send_bulk_emails_def split: option.splits)

lemma body_terminal:
  "snd (send_bulk_body ev st) = None \<Longrightarrow>
   fst (send_bulk_body ev st) \<noteq> [] \<and> terminal (last (fst (send_bulk_body ev st)))"
  by (cases "smtp_open ev st";
      cases "send_loop ev st (length (receiver_list st)) (Suc 0) (receiver_list st)")
     (simp add: send_bulk_body_def Let_def split: option.splits if_splits)

text \<open>
  The outcomes of \<open>starttls\<close> and \<open>quit\<close> do not reach the log: replacing them changes
  neither the lines logged nor the exception that leaves the body.
\<close>

lemma swallowed_py_int: "py_int (ev\<lparr>starttls_res := x, quit_res := q\<rparr>) v = py_int ev v"
  by (cases v) (simp_all add: py_int_def)

lemma swallowed_py_float:
  "py_float (ev\<lparr>starttls_res := x, quit_res := q\<rparr>) v = py_float ev v"
  by (cases v) (simp_all add: py_float_def)

lemma swallowed_draw_delay:
  "draw_delay (ev\<lparr>starttls_res := x, quit_res := q\<rparr>) st i = draw_delay ev st i"
  by (simp add: draw_delay_def delay_bounds_def swallowed_py_float
      split: sum.splits prod.splits)

lemma swallowed_send_one:
  "send_one (ev\<lparr>starttls_res := x, quit_res := q\<rparr>) st tot i r = send_one ev st tot i r"
  by (simp add: send_one_def swallowed_draw_delay Let_def split: option.splits)

lemma swallowed_send_loop:
  "send_loop (ev\<lparr>starttls_res := x, quit_res := q\<rparr>) st tot i rs = send_loop ev st tot i rs"
  by (induction rs arbitrary: i)
     (simp_all add: swallowed_draw_delay swallowed_send_one split: option.splits prod.splits)

lemma swallowed_smtp_open:
  "logs (fst (smtp_open (ev\<lparr>starttls_res := x, quit_res := q\<rparr>) st)) =
     logs (fst (smtp_open ev st)) \<and>
   snd (smtp_open (ev\<lparr>starttls_res := x, quit_res := q\<rparr>) st) = snd (smtp_open ev st)"
  by (simp add: smtp_open_def swallowed_py_int Let_def logs_append
      split: sum.splits option.splits)

lemma swallowed_body:
  "logs (fst (send_bulk_body (ev\<lparr>starttls_res := x, quit_res := q\<rparr>) st)) =
     logs (fst (send_bulk_body ev st)) \<and>
   snd (send_bulk_body (ev\<lparr>starttls_res := x, quit_res := q\<rparr>) st) =
     snd (send_bulk_body ev st)"
proof -
  obtain t y where o: "smtp_open ev st = (t, y)"
    by (cases "smtp_open ev st")
  obtain t' y' where o': "smtp_open (ev\<lparr>starttls_res := x, quit_res := q\<rparr>) st = (t', y')"
    by (cases "smtp_open (ev\<lparr>starttls_res := x, quit_res := q\<rparr>) st")
  have same: "logs t' = logs t" "y' = y"
    using swallowed_smtp_open [where ev = ev and x = x and q = q and st = st] o o'
    by simp_all
  obtain u z where l:
    "send_loop ev st (length (receiver_list st)) (Suc 0) (receiver_list st) = (u, z)"
    by (cases "send_loop ev st (length (receiver_list st)) (Suc 0) (receiver_list st)")
  show ?thesis
    by (simp add: send_bulk_body_def o o' same l swallowed_send_loop Let_def logs_append
        split: option.splits)
qed

text \<open>
  Claim C2, as stated, fails: when \<open>quit\<close> raises after the only recipient has been
  served, the exception is discarded. The run is the same as without it and no log line
  reports it.
\<close>

theorem quit_error_not_logged_counterexample:
  "fst (send_bulk_emails (env_ok\<lparr>quit_res := Some (Exn ''Connection unexpectedly closed'')\<rparr>)
     (default_settings\<lparr>receiver_list := [''a@x.org'']\<rparr>)) =
   [Log Connecting, SmtpConnect (PyStr ''smtp.gmail.com'') 587, Ehlo, StartTls, Ehlo,
    Login (PyStr []) (PyStr []), Log LoggedIn, Sendmail (PyStr []) ''a@x.org'',
    Log (Sent ''a@x.org'' 1 1), Log (Waiting (7 / 2)), Sleep (7 / 2), Quit,
    Log AllProcessed]"
proof -
  have s: "strip ''a@x.org'' = ''a@x.org''"
    by code_simp
  show ?thesis
    by (simp add: send_bulk_emails_def send_bulk_body_def smtp_open_def send_one_def
        draw_delay_def delay_bounds_def py_float_def py_int_def uniform_def time_sleep_def
        sleep_max_def default_settings_def env_ok_def Let_def s)
qed

text \<open>
  Claim C2, amended. For every configuration and every behaviour of the environment (any
  of the conversions, \<open>SMTP\<close>, \<open>ehlo\<close>, \<open>starttls\<close>, \<open>login\<close>, message building,
  \<open>sendmail\<close>, \<open>sleep\<close> or \<open>quit\<close> raising), \<open>send_bulk_emails\<close> returns normally, and the
  last thing it does is to log a terminal line: the completion line, the no-recipients
  line or the error line. An exception that leaves the body of the outer \<open>try\<close> becomes
  exactly one error line, which carries its text; when none leaves it there is no error
  line. An exception of \<open>starttls\<close> or of \<open>quit\<close> is discarded without a log line: the
  lines logged are the same whatever these two calls do.
\<close>

theorem run_never_raises:
  "snd (send_bulk_emails ev st) = None \<and>
   fst (send_bulk_emails ev st) \<noteq> [] \<and>
   terminal (last (fst (send_bulk_emails ev st))) \<and>
   (\<forall>e. snd (send_bulk_body ev st) = Some e \<longrightarrow>
        last (fst (send_bulk_emails ev st)) = Log (RunError e) \<and>
        fatal_lines (fst (send_bulk_emails ev st)) = [e]) \<and>
   (snd (send_bulk_body ev st) = None \<longrightarrow> fatal_lines (fst (send_bulk_emails ev st)) = []) \<and>
   (\<forall>x q. logs (fst (send_bulk_emails (ev\<lparr>starttls_res := x, quit_res := q\<rparr>) st)) =
          logs (fst (send_bulk_emails ev st)))"
proof -
  have swallowed: "logs (fst (send_bulk_emails (ev\<lparr>starttls_res := x, quit_res := q\<rparr>) st)) =
      logs (fst (send_bulk_emails ev st))" for x q
    using swallowed_body [where ev = ev and x = x and q = q and st = st]
    by (cases "snd (send_bulk_body ev st)") (simp_all add: run_cases logs_append)
  show ?thesis
  proof (cases "snd (send_bulk_body ev st)")
    case None
    then show ?thesis
      using body_terminal [of ev st] swallowed
      by (simp add: run_cases fatal_lines_body)
  next
    case (Some e)
    then show ?thesis
      using swallowed by (simp add: run_cases observe_append fatal_lines_body)
  qed
qed

text \<open>The theorem at a run whose connection attempt times out.\<close>

theorem run_never_raises_witness:
  "snd (send_bulk_body (env_ok\<lparr>connect_res := Some (Exn ''timed out'')\<rparr>) default_settings) =
     Some (Exn ''timed out'') \<and>
   snd (send_bulk_emails (env_ok\<lparr>connect_res := Some (Exn ''timed out'')\<rparr>) default_settings) =
     None \<and>
   last (fst (send_bulk_emails (env_ok\<lparr>connect_res := Some (Exn ''timed out'')\<rparr>)
     default_settings)) = Log (RunError (Exn ''timed out''))"
proof -
  have b: "snd (send_bulk_body (env_ok\<lparr>connect_res := Some (Exn ''timed out'')\<rparr>)
      default_settings) = Some (Exn ''timed out'')"
    by (simp add: send_bulk_body_def smtp_open_def py_int_def default_settings_def env_ok_def)
  show ?thesis
    using run_never_raises [of "env_ok\<lparr>connect_res := Some (Exn ''timed out'')\<rparr>"
        default_settings] b
    by simp
qed

lemma smtp_open_login_fails:
  "login_res ev = Some e \<Longrightarrow> \<exists>e'. snd (smtp_open ev st) = Some e'"
  by (simp add: smtp_open_def Let_def split: sum.splits option.splits)

lemma smtp_open_login_reached:
  "login_res ev = Some e \<Longrightarrow> connect_res ev = None \<Longrightarrow> ehlo_res ev = None \<Longrightarrow>
   \<not> isl (py_int ev (smtp_port st)) \<Longrightarrow> snd (smtp_open ev st) = Some e"
  by (cases "py_int ev (smtp_port st)") (simp_all add: smtp_open_def Let_def)

lemma body_open_fails:
  "snd (smtp_open ev st) = Some e \<Longrightarrow> send_bulk_body ev st = (fst (smtp_open ev st), Some e)"
  by (cases "smtp_open ev st") (simp add: send_bulk_body_def)

lemma body_empty:
  "snd (smtp_open ev st) = None \<Longrightarrow> receiver_list st = [] \<Longrightarrow>
   send_bulk_body ev st = (fst (smtp_open ev st) @ [Log NoRecipients], None)"
  by (cases "smtp_open ev st") (simp add: send_bulk_body_def)

lemma smtp_open_calls:
  "snd (smtp_open ev st) = None \<Longrightarrow>
   Login (sender_email st) (password st) \<in> set (fst (smtp_open ev st)) \<and>
   (\<exists>p. SmtpConnect (smtp_server st) p \<in> set (fst (smtp_open ev st)))"
  by (auto simp: smtp_open_def Let_def split: sum.splits option.splits)

text \<open>
  Claim C4. If \<open>server.login\<close> raises, no message is submitted for any recipient and no
  delay is slept, exactly one error line is logged, and the run returns normally after
  that terminal line. When the login is reached, the line carries the error of the login.
\<close>

theorem login_failure_aborts:
  assumes "login_res ev = Some e"
  shows "submissions (fst (send_bulk_emails ev st)) = [] \<and>
         sleeps (fst (send_bulk_emails ev st)) = [] \<and>
         length (fatal_lines (fst (send_bulk_emails ev st))) = 1 \<and>
         snd (send_bulk_emails ev st) = None \<and>
         terminal (last (fst (send_bulk_emails ev st))) \<and>
         (connect_res ev = None \<and> ehlo_res ev = None \<and> \<not> isl (py_int ev (smtp_port st)) \<longrightarrow>
            fatal_lines (fst (send_bulk_emails ev st)) = [e])"
proof -
  obtain e' where e': "snd (smtp_open ev st) = Some e'"
    using smtp_open_login_fails [OF assms] by blast
  have run: "send_bulk_emails ev st = (fst (smtp_open ev st) @ [Log (RunError e')], None)"
    by (simp add: run_cases body_open_fails [OF e'])
  have reached: "connect_res ev = None \<and> ehlo_res ev = None \<and>
      \<not> isl (py_int ev (smtp_port st)) \<longrightarrow> e' = e"
    using smtp_open_login_reached [OF assms, of st] e' by auto
  show ?thesis
    using reached by (simp add: run observe_append smtp_open_observe)
qed

text \<open>The theorem at a run with two recipients whose login is rejected.\<close>

theorem login_failure_aborts_witness:
  "login_res (env_ok\<lparr>login_res := Some (Exn ''535 bad credentials'')\<rparr>) =
     Some (Exn ''535 bad credentials'') \<and>
   submissions (fst (send_bulk_emails (env_ok\<lparr>login_res := Some (Exn ''535 bad credentials'')\<rparr>)
     (default_settings\<lparr>receiver_list := [''a@x.org'', ''b@x.org'']\<rparr>))) = [] \<and>
   fatal_lines (fst (send_bulk_emails (env_ok\<lparr>login_res := Some (Exn ''535 bad credentials'')\<rparr>)
     (default_settings\<lparr>receiver_list := [''a@x.org'', ''b@x.org'']\<rparr>))) =
     [Exn ''535 bad credentials'']"
proof -
  have h: "login_res (env_ok\<lparr>login_res := Some (Exn ''535 bad credentials'')\<rparr>) =
      Some (Exn ''535 bad credentials'')"
    by simp
  have r: "connect_res (env_ok\<lparr>login_res := Some (Exn ''535 bad credentials'')\<rparr>) = None \<and>
      ehlo_res (env_ok\<lparr>login_res := Some (Exn ''535 bad credentials'')\<rparr>) = None \<and>
      \<not> isl (py_int (env_ok\<lparr>login_res := Some (Exn ''535 bad credentials'')\<rparr>)
        (smtp_port (default_settings\<lparr>receiver_list := [''a@x.org'', ''b@x.org'']\<rparr>)))"
    by (simp add: env_ok_def default_settings_def py_int_def)
  show ?thesis
    using login_failure_aborts [OF h,
        of "default_settings\<lparr>receiver_list := [''a@x.org'', ''b@x.org'']\<rparr>"] r h
    by simp
qed

text \<open>
  Claim C3, as stated, fails: with an empty recipient list and a server that accepts
  everything, the run opens the connection, negotiates and logs in before it notices that
  there is nothing to send.
\<close>

theorem empty_list_connects_counterexample:
  "receiver_list default_settings = [] \<and>
   fst (send_bulk_emails env_ok default_settings) =
     [Log Connecting, SmtpConnect (PyStr ''smtp.gmail.com'') 587, Ehlo, StartTls, Ehlo,
      Login (PyStr []) (PyStr []), Log LoggedIn, Log NoRecipients]"
  by (simp add: send_bulk_emails_def send_bulk_body_def smtp_open_def py_int_def
      default_settings_def env_ok_def)

text \<open>
  Claim C3, amended. If the recipient list is empty, no message is submitted and no delay
  is slept. The connection is still opened and the login performed first; when these
  succeed the run ends right after them with the no-recipients line.
\<close>

theorem empty_list_no_send:
  assumes "receiver_list st = []"
  shows "submissions (fst (send_bulk_emails ev st)) = [] \<and>
         sleeps (fst (send_bulk_emails ev st)) = [] \<and>
         (snd (smtp_open ev st) = None \<longrightarrow>
            fst (send_bulk_emails ev st) = fst (smtp_open ev st) @ [Log NoRecipients] \<and>
            Login (sender_email st) (password st) \<in> set (fst (send_bulk_emails ev st)) \<and>
            (\<exists>p. SmtpConnect (smtp_server st) p \<in> set (fst (send_bulk_emails ev st))))"
proof (cases "snd (smtp_open ev st)")
  case None
  have run: "send_bulk_emails ev st = (fst (smtp_open ev st) @ [Log NoRecipients], None)"
    by (simp add: run_cases body_empty [OF None assms])
  show ?thesis
    using smtp_open_calls [OF None] None
    by (auto simp: run observe_append smtp_open_observe)
next
  case (Some e)
  have run: "send_bulk_emails ev st = (fst (smtp_open ev st) @ [Log (RunError e)], None)"
    by (simp add: run_cases body_open_fails [OF Some])
  show ?thesis
    using Some by (simp add: run observe_append smtp_open_observe)
qed

text \<open>The theorem at the default settings, whose recipient list is empty.\<close>

theorem empty_list_no_send_witness:
  "receiver_list default_settings = [] \<and>
   submissions (fst (send_bulk_emails env_ok default_settings)) = [] \<and>
   sleeps (fst (send_bulk_emails env_ok default_settings)) = [] \<and>
   Login (PyStr []) (PyStr []) \<in> set (fst (send_bulk_emails env_ok default_settings))"
proof -
  have h: "receiver_list default_settings = []"
    by (simp add: default_settings_def)
  have o: "snd (smtp_open env_ok default_settings) = None"
    by (simp add: smtp_open_def py_int_def default_settings_def env_ok_def)
  have s: "sender_email default_settings = PyStr []" "password default_settings = PyStr []"
    by (simp_all add: default_settings_def)
  have a: "submissions (fst (send_bulk_emails env_ok default_settings)) = [] \<and>
      sleeps (fst (send_bulk_emails env_ok default_settings)) = [] \<and>
      Login (sender_email default_settings) (password default_settings)
        \<in> set (fst (send_bulk_emails env_ok default_settings))"
    using empty_list_no_send [OF h, of env_ok] o by blast
  show ?thesis
    using a h unfolding s by blast
qed

lemma draw_delay_Inr:
  "delay_bounds ev st = Inr (lo, hi) \<Longrightarrow> draw_delay ev st i = uniform lo hi (rand ev i)"
  by (simp add: draw_delay_def)

lemma sleeps_run:
  "set (sleeps (fst (send_bulk_emails ev st))) \<subseteq> range (draw_delay ev st)"
  using sleeps_body [of ev st]
  by (cases "snd (send_bulk_body ev st)") (simp_all add: run_cases observe_append)





lemma send_emails_stores:
  "send_emails st0 ns = Inr (st', lg) \<Longrightarrow>
   min_delay st' = (case ns ''min_delay'' of Some v \<Rightarrow> v | None \<Rightarrow> min_delay st0) \<and>
   max_delay st' = (case ns ''max_delay'' of Some v \<Rightarrow> v | None \<Rightarrow> max_delay st0)"
  by (auto simp: send_emails_def update_allowed_def Let_def split: sum.splits prod.splits)

text \<open>
  Claim C6, as stated, fails: \<open>send_emails\<close>, which builds the configuration, stores
  a maximum of 2 below a minimum of 5 as given. Nothing is clamped at that time.
\<close>

theorem send_emails_keeps_delays_counterexample:
  "send_emails default_settings [''min_delay'' \<mapsto> PyStr ''5'', ''max_delay'' \<mapsto> PyStr ''2''] =
     Inr (default_settings\<lparr>min_delay := PyStr ''5'', max_delay := PyStr ''2''\<rparr>,
          [Loaded 0, InBackground]) \<and>
   py_float env_ok (PyStr ''5'') = Inr 5 \<and> py_float env_ok (PyStr ''2'') = Inr 2"
  by (simp add: send_emails_def update_allowed_def parse_value_def parse_receivers_def
      default_settings_def py_float_def env_ok_def)

text \<open>
  Claim C6, amended. When both delays convert to numbers, the worker draws each delay
  between the minimum and the larger of minimum and maximum, so the effective maximum is
  never below the minimum. If the maximum is below the minimum, every delay drawn and
  every delay slept is exactly the minimum. This clamping happens in the worker at each
  draw: the configuration built by \<open>send_emails\<close> keeps the maximum as it was given.
\<close>

theorem delay_clamped_at_draw:
  assumes "py_float ev (min_delay st) = Inr mind" "py_float ev (max_delay st) = Inr maxd"
  shows "delay_bounds ev st = Inr (mind, max mind maxd) \<and>
         (maxd < mind \<longrightarrow>
            draw_delay ev st i = mind \<and>
            set (sleeps (fst (send_bulk_emails ev st))) \<subseteq> {mind}) \<and>
         (\<forall>st0 ns lg v. send_emails st0 ns = Inr (st, lg) \<and> ns ''max_delay'' = Some v \<longrightarrow>
            max_delay st = v)"
proof -
  have b: "delay_bounds ev st = Inr (mind, max mind maxd)"
    by (rule delay_bounds_Inr [OF assms])
  have c: "draw_delay ev st j = mind" if "maxd < mind" for j
    using that draw_delay_Inr [OF b, of j] by (simp add: uniform_def max_def)
  have s: "set (sleeps (fst (send_bulk_emails ev st))) \<subseteq> {mind}" if "maxd < mind"
    using sleeps_run [of ev st] c [OF that] by auto
  have k: "\<forall>st0 ns lg v. send_emails st0 ns = Inr (st, lg) \<and> ns ''max_delay'' = Some v \<longrightarrow>
      max_delay st = v"
    using send_emails_stores by fastforce
  show ?thesis
    using b c s k by blast
qed

text \<open>The theorem at a minimum of 5, a maximum of 2 and two recipients.\<close>

theorem delay_clamped_at_draw_witness:
  "py_float env_ok (min_delay (default_settings\<lparr>min_delay := PyStr ''5'',
     max_delay := PyStr ''2'', receiver_list := [''a@x.org'', ''b@x.org'']\<rparr>)) = Inr 5 \<and>
   py_float env_ok (max_delay (default_settings\<lparr>min_delay := PyStr ''5'',
     max_delay := PyStr ''2'', receiver_list := [''a@x.org'', ''b@x.org'']\<rparr>)) = Inr 2 \<and>
   draw_delay env_ok (default_settings\<lparr>min_delay := PyStr ''5'',
     max_delay := PyStr ''2'', receiver_list := [''a@x.org'', ''b@x.org'']\<rparr>) 1 = 5 \<and>
   set (sleeps (fst (send_bulk_emails env_ok (default_settings\<lparr>min_delay := PyStr ''5'',
     max_delay := PyStr ''2'', receiver_list := [''a@x.org'', ''b@x.org'']\<rparr>)))) \<subseteq> {5}"
proof -
  let ?st = "default_settings\<lparr>min_delay := PyStr ''5'', max_delay := PyStr ''2'',
    receiver_list := [''a@x.org'', ''b@x.org'']\<rparr>"
  have lo: "py_float env_ok (min_delay ?st) = Inr 5"
    by (simp add: py_float_def env_ok_def)
  have hi: "py_float env_ok (max_delay ?st) = Inr 2"
    by (simp add: py_float_def env_ok_def)
  show ?thesis
    using delay_clamped_at_draw [OF lo hi, of 1] lo hi by simp
qed






end
